theory Spec2Isabelle
  imports Complex_Main
begin

section \<open>Room configurations (RoomConfiguration.tsx)\<close>

text \<open>
  JavaScript numbers that the component only ever uses as whole counts (party sizes, room
  counts, the id counter) are modelled as integers; \<open>Math.floor(x / 2)\<close> is then the
  flooring \<open>div\<close> of HOL.
\<close>

text \<open>Decimal rendering of the id counter inside the template literal \<open>config-${id++}\<close>.\<close>

definition digitChar :: "nat \<Rightarrow> char" where
  "digitChar d = ''0123456789'' ! d"

function decimalDigits :: "nat \<Rightarrow> string" where
  "decimalDigits n =
     (if 10 \<le> n then decimalDigits (n div 10) @ [digitChar (n mod 10)] else [digitChar n])"
  by pat_completeness auto
termination
  by (relation "measure (\<lambda>n. n)") auto

declare decimalDigits.simps [simp del]

record RoomConfig =
  id_cfg :: string
  single :: int
  double :: int
  twin :: int
  priceDifference :: int

text \<open>The helper \<open>isValid\<close> closes over \<open>pax\<close>; here it is its first argument.\<close>

definition isValid :: "int \<Rightarrow> int \<Rightarrow> int \<Rightarrow> int \<Rightarrow> bool" where
  "isValid pax s d t \<longleftrightarrow> s + d * 2 + t * 2 = pax"

text \<open>
  The mutable locals of \<open>generateRoomConfigurations\<close>: the array \<open>configs\<close> and the
  counter \<open>id\<close>. \<open>pushConfig\<close> is the body of the innermost \<open>if\<close>.
\<close>

type_synonym gen_state = "RoomConfig list \<times> nat"

definition pushConfig :: "int \<Rightarrow> int \<Rightarrow> int \<Rightarrow> gen_state \<Rightarrow> gen_state" where
  "pushConfig s d t st =
     (case st of (configs, n) \<Rightarrow>
        let roomBaseCost = (s + d + t) * 500;
            pd = roomBaseCost
        in (configs @ [\<lparr>id_cfg = ''config-'' @ decimalDigits n, single = s, double = d,
                         twin = t, priceDifference = pd\<rparr>],
            Suc n))"

definition twinLoop :: "int \<Rightarrow> int \<Rightarrow> int \<Rightarrow> gen_state \<Rightarrow> gen_state" where
  "twinLoop pax s d st =
     fold (\<lambda>t acc. if isValid pax s d t then pushConfig s d t acc else acc)
          [0..(pax - s - d * 2) div 2] st"

definition doubleLoop :: "int \<Rightarrow> int \<Rightarrow> gen_state \<Rightarrow> gen_state" where
  "doubleLoop pax s st = fold (\<lambda>d acc. twinLoop pax s d acc) [0..(pax - s) div 2] st"

definition singleLoop :: "int \<Rightarrow> gen_state \<Rightarrow> gen_state" where
  "singleLoop pax st = fold (\<lambda>s acc. doubleLoop pax s acc) [0..pax] st"

text \<open>
  \<open>Array.prototype.sort\<close> with the comparator \<open>a.priceDifference - b.priceDifference\<close> is a
  stable sort on that key (ECMAScript 2019); \<open>sort_key\<close> is a stable insertion sort.
\<close>

definition generateRoomConfigurations :: "int \<Rightarrow> RoomConfig list" where
  "generateRoomConfigurations pax = sort_key priceDifference (fst (singleLoop pax ([], 0)))"


section \<open>Tour data (App.tsx)\<close>

text \<open>
  Prices are JavaScript numbers and need not be whole; they are modelled as exact rationals
  (binary floating-point error is outside the model). Passenger counts and traveller limits
  are integers. Only the fields that the booking logic of \<open>TourDetail\<close> reads are kept;
  the display-only fields (images, descriptions, seat counts and so on) are left out. A field
  that the TypeScript type marks optional, or that the code reads through \<open>?.\<close> and
  \<open>||\<close> because the departure schedule is parsed JSON, is an \<open>option\<close>.
\<close>

record PricingTier =
  tier_pax :: int
  tier_pricePerPerson :: rat

record Addon =
  addon_id :: string
  addon_name :: string
  addon_price :: rat
  addon_description :: "string option"

datatype DepartureStatus = available | limited | sold_out

record Departure =
  dep_id :: string
  dep_date :: string
  dep_pricePerPerson :: "rat option"
  dep_status :: "DepartureStatus option"
  dep_pricingTiers :: "PricingTier list option"
  dep_childWithBed :: "rat option"
  dep_childWithoutBed :: "rat option"
  dep_addons :: "Addon list option"

text \<open>\<open>departureSchedule\<close> is \<open>None\<close> when the schedule or its \<open>departures\<close> is missing.\<close>

record Tour =
  tour_id :: string
  tour_slug :: string
  tour_name :: string
  tour_pricePerPerson :: rat
  minTravelers :: int
  maxTravelers :: int
  availableDates :: "string list"
  tour_pricingTiers :: "PricingTier list"
  tour_childWithBed :: rat
  tour_childWithoutBed :: rat
  tour_addons :: "Addon list"
  departureSchedule :: "Departure list option"

section \<open>The booking form (TourDetail.tsx)\<close>

text \<open>The \<open>useState\<close> cells of \<open>TourDetail\<close> (the month and year pickers only filter the display).\<close>

record State =
  selectedDate :: string
  adults :: int
  childrenWithBed :: int
  childrenWithoutBed :: int
  selectedRoomConfig :: "RoomConfig option"
  selectedAddons :: "string list"
  customerName :: string
  customerEmail :: string
  customerPhone :: string
  error :: string
  isProcessing :: bool

definition initialState :: State where
  "initialState =
     \<lparr>selectedDate = '''', adults = 2, childrenWithBed = 0, childrenWithoutBed = 0,
      selectedRoomConfig = None, selectedAddons = [], customerName = '''',
      customerEmail = '''', customerPhone = '''', error = '''', isProcessing = False\<rparr>"

subsection \<open>JavaScript operators\<close>

text \<open>\<open>Math.round\<close>: the nearest integer, a tie going towards plus infinity.\<close>

definition js_round :: "rat \<Rightarrow> int" where
  "js_round x = \<lfloor>x + 1 / 2\<rfloor>"

text \<open>
  \<open>a || b\<close> on a number that may be missing: the left operand when it is truthy (present and
  not zero), else the right one. A chain \<open>a || b || c\<close> is written nested to the right, which
  yields the same value.
\<close>

definition num_or :: "rat option \<Rightarrow> rat \<Rightarrow> rat" where
  "num_or a b = (case a of None \<Rightarrow> b | Some v \<Rightarrow> if v = 0 then b else v)"

text \<open>\<open>a || b\<close> on an array that may be missing: every array, also the empty one, is truthy.\<close>

definition arr_or :: "'a list option \<Rightarrow> 'a list \<Rightarrow> 'a list" where
  "arr_or a b = (case a of None \<Rightarrow> b | Some xs \<Rightarrow> xs)"

text \<open>\<open>d?.field\<close> on a departure that may be null.\<close>

definition opt_field :: "Departure option \<Rightarrow> (Departure \<Rightarrow> 'a option) \<Rightarrow> 'a option" where
  "opt_field d f = (case d of None \<Rightarrow> None | Some x \<Rightarrow> f x)"

text \<open>A whole number inside a template literal.\<close>

definition numberToString :: "int \<Rightarrow> string" where
  "numberToString i =
     (if 0 \<le> i then decimalDigits (nat i) else CHR ''-'' # decimalDigits (nat (- i)))"

subsection \<open>Derived values\<close>

definition totalTravelers :: "State \<Rightarrow> int" where
  "totalTravelers s = adults s + childrenWithBed s + childrenWithoutBed s"

definition totalPaxForRooms :: "State \<Rightarrow> int" where
  "totalPaxForRooms s = adults s + childrenWithBed s"

definition getSelectedDeparture :: "Tour \<Rightarrow> State \<Rightarrow> Departure option" where
  "getSelectedDeparture tour s =
     (if selectedDate s = '''' then None
      else case departureSchedule tour of
             None \<Rightarrow> None
           | Some ds \<Rightarrow> find (\<lambda>d. dep_date d = selectedDate s) ds)"

text \<open>The local constant \<open>pricingTiers\<close> of \<open>getPriceForPax\<close>.\<close>

definition getPriceForPax_pricingTiers :: "Tour \<Rightarrow> State \<Rightarrow> PricingTier list" where
  "getPriceForPax_pricingTiers tour s =
     arr_or (opt_field (getSelectedDeparture tour s) dep_pricingTiers) (tour_pricingTiers tour)"

text \<open>The expression \<open>selectedDeparture?.pricePerPerson || tour.pricePerPerson || 0\<close>, which
  \<open>getPriceForPax\<close> uses twice.\<close>

definition flatPricePerPerson :: "Tour \<Rightarrow> State \<Rightarrow> rat" where
  "flatPricePerPerson tour s =
     num_or (opt_field (getSelectedDeparture tour s) dep_pricePerPerson)
       (num_or (Some (tour_pricePerPerson tour)) 0)"

definition getPriceForPax :: "Tour \<Rightarrow> State \<Rightarrow> int \<Rightarrow> rat" where
  "getPriceForPax tour s pax =
     (let pricingTiers = getPriceForPax_pricingTiers tour s
      in if pricingTiers = [] then flatPricePerPerson tour s
         else let tier = (case find (\<lambda>t. tier_pax t = pax) pricingTiers of
                            Some t \<Rightarrow> t
                          | None \<Rightarrow> last pricingTiers)
              in num_or (Some (tier_pricePerPerson tier)) (flatPricePerPerson tour s))"

definition pricePerPerson :: "Tour \<Rightarrow> State \<Rightarrow> rat" where
  "pricePerPerson tour s = getPriceForPax tour s (adults s)"

definition basePrice :: "Tour \<Rightarrow> State \<Rightarrow> int" where
  "basePrice tour s = js_round (of_int (adults s) * pricePerPerson tour s)"

definition childWithBedPrice :: "Tour \<Rightarrow> State \<Rightarrow> rat" where
  "childWithBedPrice tour s =
     num_or (opt_field (getSelectedDeparture tour s) dep_childWithBed) (tour_childWithBed tour)"

definition childWithoutBedPrice :: "Tour \<Rightarrow> State \<Rightarrow> rat" where
  "childWithoutBedPrice tour s =
     num_or (opt_field (getSelectedDeparture tour s) dep_childWithoutBed)
       (tour_childWithoutBed tour)"

definition childrenPrice :: "Tour \<Rightarrow> State \<Rightarrow> int" where
  "childrenPrice tour s =
     js_round (of_int (childrenWithBed s) * childWithBedPrice tour s
               + of_int (childrenWithoutBed s) * childWithoutBedPrice tour s)"

definition roomPrice :: "State \<Rightarrow> int" where
  "roomPrice s =
     (case selectedRoomConfig s of
        Some c \<Rightarrow> js_round (of_int (priceDifference c))
      | None \<Rightarrow> 0)"

definition availableAddons :: "Tour \<Rightarrow> State \<Rightarrow> Addon list" where
  "availableAddons tour s =
     arr_or (opt_field (getSelectedDeparture tour s) dep_addons) (tour_addons tour)"

text \<open>The reducer of \<open>addonsPrice\<close>, and the reduction from 0 over the selected ids.\<close>

definition addonReducer :: "Addon list \<Rightarrow> string \<Rightarrow> rat \<Rightarrow> rat" where
  "addonReducer addons addonId acc =
     acc + num_or (map_option addon_price (find (\<lambda>a. addon_id a = addonId) addons)) 0"

definition addonsPrice :: "Tour \<Rightarrow> State \<Rightarrow> int" where
  "addonsPrice tour s =
     js_round (fold (addonReducer (availableAddons tour s)) (selectedAddons s) 0)"

definition totalPrice :: "Tour \<Rightarrow> State \<Rightarrow> int" where
  "totalPrice tour s =
     js_round (of_int (basePrice tour s + childrenPrice tour s + roomPrice s + addonsPrice tour s))"

subsection \<open>Event handlers\<close>

definition handlePassengerChange :: "State \<Rightarrow> State" where
  "handlePassengerChange s = s\<lparr>selectedRoomConfig := None\<rparr>"

definition handleAddonToggle :: "string \<Rightarrow> State \<Rightarrow> State" where
  "handleAddonToggle addonId s =
     s\<lparr>selectedAddons :=
          (if addonId \<in> set (selectedAddons s)
           then filter (\<lambda>i. i \<noteq> addonId) (selectedAddons s)
           else selectedAddons s @ [addonId])\<rparr>"

text \<open>The \<open>onClick\<close> closures of the six passenger buttons.\<close>

definition adultsMinusClick :: "State \<Rightarrow> State" where
  "adultsMinusClick s = handlePassengerChange (s\<lparr>adults := max 1 (adults s - 1)\<rparr>)"

definition adultsPlusClick :: "State \<Rightarrow> State" where
  "adultsPlusClick s = handlePassengerChange (s\<lparr>adults := min 10 (adults s + 1)\<rparr>)"

definition childrenWithBedMinusClick :: "State \<Rightarrow> State" where
  "childrenWithBedMinusClick s =
     handlePassengerChange (s\<lparr>childrenWithBed := max 0 (childrenWithBed s - 1)\<rparr>)"

definition childrenWithBedPlusClick :: "State \<Rightarrow> State" where
  "childrenWithBedPlusClick s =
     handlePassengerChange (s\<lparr>childrenWithBed := childrenWithBed s + 1\<rparr>)"

definition childrenWithoutBedMinusClick :: "State \<Rightarrow> State" where
  "childrenWithoutBedMinusClick s =
     handlePassengerChange (s\<lparr>childrenWithoutBed := max 0 (childrenWithoutBed s - 1)\<rparr>)"

definition childrenWithoutBedPlusClick :: "State \<Rightarrow> State" where
  "childrenWithoutBedPlusClick s =
     handlePassengerChange (s\<lparr>childrenWithoutBed := childrenWithoutBed s + 1\<rparr>)"

text \<open>The payload passed to \<open>onBookingComplete\<close>; \<open>bd_roomConfiguration = None\<close> stands for the
  empty object of \<open>selectedRoomConfig || {}\<close>.\<close>

record BookingData =
  bd_tourId :: string
  bd_tourSlug :: string
  bd_tourName :: string
  bd_customerName :: string
  bd_customerEmail :: string
  bd_customerPhone :: string
  bd_departureDate :: string
  bd_adults :: int
  bd_childrenWithBed :: int
  bd_childrenWithoutBed :: int
  bd_roomConfiguration :: "RoomConfig option"
  bd_addons :: "string list"
  bd_basePrice :: int
  bd_childrenPrice :: int
  bd_roomPrice :: int
  bd_addonsPrice :: int
  bd_totalPrice :: int
  bd_specialRequests :: string

definition bookingData :: "Tour \<Rightarrow> State \<Rightarrow> BookingData" where
  "bookingData tour s =
     \<lparr>bd_tourId = tour_id tour, bd_tourSlug = tour_slug tour, bd_tourName = tour_name tour,
      bd_customerName = customerName s, bd_customerEmail = customerEmail s,
      bd_customerPhone = customerPhone s, bd_departureDate = selectedDate s,
      bd_adults = adults s, bd_childrenWithBed = childrenWithBed s,
      bd_childrenWithoutBed = childrenWithoutBed s,
      bd_roomConfiguration = selectedRoomConfig s, bd_addons = selectedAddons s,
      bd_basePrice = basePrice tour s, bd_childrenPrice = childrenPrice tour s,
      bd_roomPrice = (case selectedRoomConfig s of Some c \<Rightarrow> priceDifference c | None \<Rightarrow> 0),
      bd_addonsPrice = addonsPrice tour s, bd_totalPrice = totalPrice tour s,
      bd_specialRequests = ''''\<rparr>"

text \<open>
  \<open>handleBooking\<close> up to its \<open>await\<close>: the state it leaves and the call to
  \<open>onBookingComplete\<close> it makes, if any. Every early \<open>return\<close> is a branch with no call.
\<close>

definition handleBooking :: "Tour \<Rightarrow> State \<Rightarrow> State \<times> BookingData option" where
  "handleBooking tour s0 =
     (let s = s0\<lparr>error := ''''\<rparr>
      in if selectedDate s = '''' then
           (s\<lparr>error := ''Please select a departure date''\<rparr>, None)
         else if selectedRoomConfig s = None \<and> adults s > 0 then
           (s\<lparr>error := ''Please select a room configuration''\<rparr>, None)
         else if totalTravelers s < minTravelers tour then
           (s\<lparr>error := ''Minimum '' @ numberToString (minTravelers tour) @ '' travelers required''\<rparr>,
            None)
         else if totalTravelers s > maxTravelers tour then
           (s\<lparr>error := ''Maximum '' @ numberToString (maxTravelers tour) @ '' travelers allowed''\<rparr>,
            None)
         else if customerName s = '''' \<or> customerEmail s = '''' \<or> customerPhone s = '''' then
           (s\<lparr>error := ''Please fill in all contact details''\<rparr>, None)
         else (s\<lparr>isProcessing := True\<rparr>, Some (bookingData tour s)))"

text \<open>
  How the awaited call ends: it resolves, or it rejects with an error whose \<open>message\<close> may be
  empty. \<open>handleBookingSettled\<close> is the \<open>catch\<close> and \<open>finally\<close> of \<open>handleBooking\<close>.
\<close>

datatype outcome = Resolved | Rejected string

definition handleBookingSettled :: "outcome \<Rightarrow> State \<Rightarrow> State" where
  "handleBookingSettled out s =
     (case out of
        Resolved \<Rightarrow> s
      | Rejected m \<Rightarrow>
          s\<lparr>error := (if m \<noteq> '''' then m
                       else ''Failed to initiate payment. Please try again.'')\<rparr>)
     \<lparr>isProcessing := False\<rparr>"

subsection \<open>The component as a transition system\<close>

text \<open>
  \<open>RoomConfiguration\<close> is rendered when a date is selected and \<open>adults > 0\<close>. Its effect runs
  when it mounts and when \<open>totalPax\<close> changes (the setter passed as \<open>onSelectRoom\<close> never
  changes), and calls \<open>onSelectRoom(null)\<close>. React runs pending effects before it handles the
  next event, so the effect is applied at the end of the step that triggers it, and the list
  the component shows is \<open>generateRoomConfigurations totalPax\<close> at every event.
\<close>

definition roomConfigurationMounted :: "State \<Rightarrow> bool" where
  "roomConfigurationMounted s \<longleftrightarrow> selectedDate s \<noteq> '''' \<and> adults s > 0"

definition roomConfigurationEffect :: "State \<Rightarrow> State \<Rightarrow> State" where
  "roomConfigurationEffect prev s =
     (if roomConfigurationMounted s \<and>
         (\<not> roomConfigurationMounted prev \<or> totalPaxForRooms prev \<noteq> totalPaxForRooms s)
      then s\<lparr>selectedRoomConfig := None\<rparr>
      else s)"

text \<open>The status shown for a date: \<open>departure?.status || 'available'\<close>.\<close>

definition dateStatus :: "Tour \<Rightarrow> string \<Rightarrow> DepartureStatus" where
  "dateStatus tour dateStr =
     (case opt_field
             (case departureSchedule tour of
                None \<Rightarrow> None
              | Some ds \<Rightarrow> find (\<lambda>d. dep_date d = dateStr) ds)
             dep_status of
        None \<Rightarrow> available
      | Some st \<Rightarrow> st)"

text \<open>
  The user's events. A control that is not rendered or is disabled cannot fire, so its event
  leaves the state as it is. The date buttons are those of \<open>tour.availableDates\<close> (the month
  filter is not modelled: every available date can be reached), \<open>SelectRoom i\<close> clicks the
  \<open>i\<close>-th card of the room list, and \<open>ToggleAddon\<close> clicks the card of an available add-on.
\<close>

datatype event =
    SelectDate string
  | AdultsMinus | AdultsPlus
  | ChildrenWithBedMinus | ChildrenWithBedPlus
  | ChildrenWithoutBedMinus | ChildrenWithoutBedPlus
  | SelectRoom nat
  | ToggleAddon string
  | SetCustomerName string | SetCustomerEmail string | SetCustomerPhone string
  | Book
  | BookingSettled outcome

definition handler :: "Tour \<Rightarrow> event \<Rightarrow> State \<Rightarrow> State" where
  "handler tour e s =
     (case e of
        SelectDate dateStr \<Rightarrow>
          if dateStr \<in> set (availableDates tour) \<and> dateStatus tour dateStr \<noteq> sold_out
          then s\<lparr>selectedDate := dateStr\<rparr> else s
      | AdultsMinus \<Rightarrow>
          if selectedDate s \<noteq> '''' \<and> \<not> adults s \<le> 1 then adultsMinusClick s else s
      | AdultsPlus \<Rightarrow>
          if selectedDate s \<noteq> '''' \<and> \<not> adults s \<ge> 10 then adultsPlusClick s else s
      | ChildrenWithBedMinus \<Rightarrow>
          if selectedDate s \<noteq> '''' \<and> \<not> childrenWithBed s \<le> 0
          then childrenWithBedMinusClick s else s
      | ChildrenWithBedPlus \<Rightarrow>
          if selectedDate s \<noteq> '''' then childrenWithBedPlusClick s else s
      | ChildrenWithoutBedMinus \<Rightarrow>
          if selectedDate s \<noteq> '''' \<and> \<not> childrenWithoutBed s \<le> 0
          then childrenWithoutBedMinusClick s else s
      | ChildrenWithoutBedPlus \<Rightarrow>
          if selectedDate s \<noteq> '''' then childrenWithoutBedPlusClick s else s
      | SelectRoom i \<Rightarrow>
          if roomConfigurationMounted s \<and>
             i < length (generateRoomConfigurations (totalPaxForRooms s))
          then s\<lparr>selectedRoomConfig :=
                   Some (generateRoomConfigurations (totalPaxForRooms s) ! i)\<rparr>
          else s
      | ToggleAddon addonId \<Rightarrow>
          if addonId \<in> set (map addon_id (availableAddons tour s))
          then handleAddonToggle addonId s else s
      | SetCustomerName v \<Rightarrow> s\<lparr>customerName := v\<rparr>
      | SetCustomerEmail v \<Rightarrow> s\<lparr>customerEmail := v\<rparr>
      | SetCustomerPhone v \<Rightarrow> s\<lparr>customerPhone := v\<rparr>
      | Book \<Rightarrow> if isProcessing s then s else fst (handleBooking tour s)
      | BookingSettled out \<Rightarrow> if isProcessing s then handleBookingSettled out s else s)"

definition step :: "Tour \<Rightarrow> State \<Rightarrow> event \<Rightarrow> State" where
  "step tour s e = roomConfigurationEffect s (handler tour e s)"

definition run :: "Tour \<Rightarrow> event list \<Rightarrow> State" where
  "run tour es = foldl (step tour) initialState es"

inductive reachable :: "Tour \<Rightarrow> State \<Rightarrow> bool" for tour :: Tour where
  reachable_init: "reachable tour initialState"
| reachable_step: "reachable tour s \<Longrightarrow> reachable tour (step tour s e)"

section \<open>Auxiliary notions for the statements\<close>

text \<open>The room counts of a configuration, without its id and cost.\<close>

definition roomTriple :: "RoomConfig \<Rightarrow> int \<times> int \<times> int" where
  "roomTriple c = (single c, double c, twin c)"

text \<open>The triples in the order in which the three nested loops reach them.\<close>

definition enumTriples :: "int \<Rightarrow> (int \<times> int \<times> int) list" where
  "enumTriples pax =
     concat (map (\<lambda>s. concat (map (\<lambda>d. concat (map (\<lambda>t. if isValid pax s d t then [(s, d, t)] else [])
                                                      [0..(pax - s - d * 2) div 2]))
                                    [0..(pax - s) div 2]))
                 [0..pax])"

text \<open>The cost rule of the generator, as a predicate on one configuration.\<close>

definition costOk :: "RoomConfig \<Rightarrow> bool" where
  "costOk c \<longleftrightarrow> priceDifference c = (single c + double c + twin c) * 500"


subsection \<open>The rate resolution in the words of the specification\<close>

text \<open>The tier with the largest \<open>pax\<close> among \<open>t\<close> and \<open>ts\<close> (the later one of equals).\<close>

definition largestPaxTier :: "PricingTier \<Rightarrow> PricingTier list \<Rightarrow> PricingTier" where
  "largestPaxTier t ts = fold (\<lambda>u best. if tier_pax best \<le> tier_pax u then u else best) ts t"

text \<open>
  The tier whose \<open>pax\<close> equals \<open>adults\<close>; if none matches, the tier with the largest \<open>pax\<close>;
  if there is no tier at all, the flat rate.
\<close>

definition spec_resolvedRate :: "PricingTier list \<Rightarrow> rat \<Rightarrow> int \<Rightarrow> rat" where
  "spec_resolvedRate tiers flat n =
     (case find (\<lambda>t. tier_pax t = n) tiers of
        Some t \<Rightarrow> tier_pricePerPerson t
      | None \<Rightarrow> (case tiers of [] \<Rightarrow> flat | t # ts \<Rightarrow> tier_pricePerPerson (largestPaxTier t ts)))"

text \<open>The sum of the prices of every available add-on whose id is among the selected ids.\<close>

definition spec_addonsSum :: "Addon list \<Rightarrow> string list \<Rightarrow> rat" where
  "spec_addonsSum addons ids =
     sum_list (map addon_price (filter (\<lambda>a. addon_id a \<in> set ids) addons))"

subsection \<open>Example data\<close>

text \<open>A tour with the tiers (2, 20000) and (4, 18000) and no departure schedule.\<close>

definition tierTour :: Tour where
  "tierTour =
     \<lparr>tour_id = ''101'', tour_slug = ''himachal'', tour_name = ''Himachal'',
      tour_pricePerPerson = 20000, minTravelers = 2, maxTravelers = 15,
      availableDates = [''2025-12-01'', ''2025-12-15''],
      tour_pricingTiers = [\<lparr>tier_pax = 2, tier_pricePerPerson = 20000\<rparr>,
                           \<lparr>tier_pax = 4, tier_pricePerPerson = 18000\<rparr>],
      tour_childWithBed = 14900, tour_childWithoutBed = 9900, tour_addons = [],
      departureSchedule = None\<rparr>"

text \<open>The same tour with its two tiers listed in descending order of \<open>pax\<close>.\<close>

definition descendingTierTour :: Tour where
  "descendingTierTour =
     tierTour\<lparr>tour_pricingTiers := [\<lparr>tier_pax = 4, tier_pricePerPerson = 18000\<rparr>,
                                      \<lparr>tier_pax = 2, tier_pricePerPerson = 20000\<rparr>]\<rparr>"

text \<open>The end-to-end scenario: one tier (2, 25000), two adults, one double room, no add-on.\<close>

definition scenarioTour :: Tour where
  "scenarioTour = tierTour\<lparr>tour_pricingTiers := [\<lparr>tier_pax = 2, tier_pricePerPerson = 25000\<rparr>]\<rparr>"

definition scenarioState :: State where
  "scenarioState =
     initialState\<lparr>selectedRoomConfig :=
       Some \<lparr>id_cfg = ''config-1'', single = 0, double = 1, twin = 0, priceDifference = 500\<rparr>\<rparr>"

text \<open>
  A tour whose departure of 2025-12-01 carries prices of its own, and whose departure of
  2025-12-15 lists a price of 0 for a child with bed.
\<close>

definition decemberDeparture :: Departure where
  "decemberDeparture =
     \<lparr>dep_id = ''d1'', dep_date = ''2025-12-01'', dep_pricePerPerson = Some 30000,
      dep_status = Some available,
      dep_pricingTiers = Some [\<lparr>tier_pax = 2, tier_pricePerPerson = 28000\<rparr>],
      dep_childWithBed = Some 12000, dep_childWithoutBed = Some 8000,
      dep_addons = Some [\<lparr>addon_id = ''guide'', addon_name = ''Guide'', addon_price = 1500,
                           addon_description = None\<rparr>]\<rparr>"

definition freeChildDeparture :: Departure where
  "freeChildDeparture =
     \<lparr>dep_id = ''d2'', dep_date = ''2025-12-15'', dep_pricePerPerson = Some 30000,
      dep_status = Some available, dep_pricingTiers = None,
      dep_childWithBed = Some 0, dep_childWithoutBed = None, dep_addons = None\<rparr>"

definition scheduledTour :: Tour where
  "scheduledTour = tierTour\<lparr>departureSchedule := Some [decemberDeparture, freeChildDeparture]\<rparr>"

text \<open>
  A tour whose only departure carries an empty tier list and a \<open>pricePerPerson\<close> of its own.
\<close>

definition flatRateDeparture :: Departure where
  "flatRateDeparture =
     \<lparr>dep_id = ''d3'', dep_date = ''2026-01-05'', dep_pricePerPerson = Some 30000,
      dep_status = Some available, dep_pricingTiers = Some [],
      dep_childWithBed = None, dep_childWithoutBed = None, dep_addons = None\<rparr>"

definition flatRateTour :: Tour where
  "flatRateTour =
     tierTour\<lparr>availableDates := [''2026-01-05''],
              departureSchedule := Some [flatRateDeparture]\<rparr>"

text \<open>Two adults with two children and the guide add-on, on the departure of 2025-12-01.\<close>

definition decemberFamily :: State where
  "decemberFamily =
     initialState\<lparr>selectedDate := ''2025-12-01'', childrenWithBed := 1,
                  childrenWithoutBed := 1, selectedAddons := [''guide'']\<rparr>"

text \<open>A tour that lists two add-ons under the same id.\<close>

definition twoGuidesTour :: Tour where
  "twoGuidesTour =
     tierTour\<lparr>tour_addons :=
       [\<lparr>addon_id = ''guide'', addon_name = ''Guide'', addon_price = 1000,
          addon_description = None\<rparr>,
        \<lparr>addon_id = ''guide'', addon_name = ''Senior guide'', addon_price = 2500,
          addon_description = None\<rparr>]\<rparr>"

subsection \<open>Booking validity in the words of the specification\<close>

text \<open>
  A date is selected; if there is an adult, a room configuration is selected whose beds add up
  to the adults and the children with bed; the head count lies within the tour's limits; name,
  email and phone are filled in.
\<close>

definition spec_bookingValid :: "Tour \<Rightarrow> State \<Rightarrow> bool" where
  "spec_bookingValid tour s \<longleftrightarrow>
     selectedDate s \<noteq> ''''
     \<and> (adults s > 0 \<longrightarrow>
          (case selectedRoomConfig s of
             None \<Rightarrow> False
           | Some c \<Rightarrow> single c + 2 * double c + 2 * twin c = adults s + childrenWithBed s))
     \<and> minTravelers tour \<le> adults s + childrenWithBed s + childrenWithoutBed s
     \<and> adults s + childrenWithBed s + childrenWithoutBed s \<le> maxTravelers tour
     \<and> customerName s \<noteq> '''' \<and> customerEmail s \<noteq> '''' \<and> customerPhone s \<noteq> ''''"

text \<open>
  The invariant of the form: a selected configuration is one of those generated for the
  current party, the counts stay in the range of their buttons, and no add-on id is selected
  twice.
\<close>

definition roomInv :: "State \<Rightarrow> bool" where
  "roomInv s \<longleftrightarrow>
     set_option (selectedRoomConfig s) \<subseteq> set (generateRoomConfigurations (totalPaxForRooms s))
     \<and> 1 \<le> adults s \<and> adults s \<le> 10 \<and> 0 \<le> childrenWithBed s \<and> 0 \<le> childrenWithoutBed s
     \<and> distinct (selectedAddons s)"

text \<open>A visitor who picks a date and the second room card, and fills in the contact form.\<close>

definition completedForm :: State where
  "completedForm =
     run tierTour [SelectDate ''2025-12-01'', SelectRoom 1, SetCustomerName ''Asha'',
                   SetCustomerEmail ''asha@example.com'', SetCustomerPhone ''9876543210'']"

text \<open>A visitor who picks a date and the first room card.\<close>

definition roomChosen :: State where
  "roomChosen = run tierTour [SelectDate ''2025-12-01'', SelectRoom 0]"

section \<open>The room configuration generator\<close>

subsection \<open>What the loops collect\<close>

lemma fold_collect:
  assumes "\<And>x acc. map roomTriple (fst (f x acc)) = map roomTriple (fst acc) @ g x"
  shows "map roomTriple (fst (fold f xs acc)) = map roomTriple (fst acc) @ concat (map g xs)"
  using assms by (induction xs arbitrary: acc) simp_all

lemma pushConfig_triple:
  "map roomTriple (fst (pushConfig s d t acc)) = map roomTriple (fst acc) @ [(s, d, t)]"
  by (cases acc) (simp add: pushConfig_def roomTriple_def)

lemma twinLoop_triples:
  "map roomTriple (fst (twinLoop pax s d acc)) =
     map roomTriple (fst acc) @
     concat (map (\<lambda>t. if isValid pax s d t then [(s, d, t)] else []) [0..(pax - s - d * 2) div 2])"
  unfolding twinLoop_def
  by (rule fold_collect) (simp add: pushConfig_triple)

lemma doubleLoop_triples:
  "map roomTriple (fst (doubleLoop pax s acc)) =
     map roomTriple (fst acc) @
     concat (map (\<lambda>d. concat (map (\<lambda>t. if isValid pax s d t then [(s, d, t)] else [])
                                  [0..(pax - s - d * 2) div 2]))
                 [0..(pax - s) div 2])"
  unfolding doubleLoop_def
  by (rule fold_collect) (rule twinLoop_triples)

lemma singleLoop_triples:
  "map roomTriple (fst (singleLoop pax acc)) = map roomTriple (fst acc) @ enumTriples pax"
  unfolding singleLoop_def enumTriples_def
  by (rule fold_collect) (rule doubleLoop_triples)

lemma enumTriples_member:
  "(s, d, t) \<in> set (enumTriples pax) \<longleftrightarrow>
     0 \<le> s \<and> 0 \<le> d \<and> 0 \<le> t \<and> s + 2 * d + 2 * t = pax"
proof -
  have "(s, d, t) \<in> set (enumTriples pax) \<longleftrightarrow>
        (0 \<le> s \<and> s \<le> pax) \<and> (0 \<le> d \<and> d \<le> (pax - s) div 2) \<and>
        (0 \<le> t \<and> t \<le> (pax - s - d * 2) div 2) \<and> s + d * 2 + t * 2 = pax"
    by (auto simp: enumTriples_def isValid_def split: if_splits)
  also have "\<dots> \<longleftrightarrow> 0 \<le> s \<and> 0 \<le> d \<and> 0 \<le> t \<and> s + 2 * d + 2 * t = pax"
    by presburger
  finally show ?thesis .
qed

lemma set_enumTriples:
  "set (enumTriples pax) =
     {(s, d, t). 0 \<le> s \<and> 0 \<le> d \<and> 0 \<le> t \<and> s + 2 * d + 2 * t = pax}"
  using enumTriples_member by auto

lemma distinct_concat_map:
  assumes "distinct xs"
    and "\<And>x. x \<in> set xs \<Longrightarrow> distinct (g x)"
    and "\<And>x y. x \<in> set xs \<Longrightarrow> y \<in> set xs \<Longrightarrow> x \<noteq> y \<Longrightarrow> set (g x) \<inter> set (g y) = {}"
  shows "distinct (concat (map g xs))"
  using assms
proof (induction xs)
  case Nil
  then show ?case by simp
next
  case (Cons a xs)
  have "set (g a) \<inter> set (g y) = {}" if "y \<in> set xs" for y
    using Cons.prems(1) Cons.prems(3)[of a y] that by auto
  moreover have "distinct (concat (map g xs))"
    using Cons by simp
  ultimately show ?case
    using Cons.prems(2)[of a] by auto
qed

lemma distinct_enumTriples: "distinct (enumTriples pax)"
  unfolding enumTriples_def
  apply (rule distinct_concat_map)
    apply simp
   apply (rule distinct_concat_map)
     apply simp
    apply (rule distinct_concat_map)
      apply simp
     apply simp
    apply (auto split: if_splits)
  done

lemma triples_generate:
  "set (map roomTriple (generateRoomConfigurations pax)) = set (enumTriples pax)"
proof -
  have "set (map roomTriple (generateRoomConfigurations pax)) =
        set (map roomTriple (fst (singleLoop pax ([], 0))))"
    by (simp add: generateRoomConfigurations_def)
  then show ?thesis by (simp only: singleLoop_triples) simp
qed

lemma distinct_triples_generate: "distinct (map roomTriple (generateRoomConfigurations pax))"
proof -
  have "distinct (map roomTriple (fst (singleLoop pax ([], 0))))"
    by (simp add: singleLoop_triples distinct_enumTriples)
  then show ?thesis
    by (simp add: generateRoomConfigurations_def distinct_map)
qed

lemma generate_member_counts:
  assumes "c \<in> set (generateRoomConfigurations pax)"
  shows "0 \<le> single c \<and> 0 \<le> double c \<and> 0 \<le> twin c \<and>
         single c + 2 * double c + 2 * twin c = pax"
proof -
  have "roomTriple c \<in> set (map roomTriple (generateRoomConfigurations pax))"
    using assms by simp
  then have "(single c, double c, twin c) \<in> set (enumTriples pax)"
    by (simp only: triples_generate roomTriple_def)
  then show ?thesis by (simp only: enumTriples_member)
qed

lemma generate_nonempty:
  assumes "0 \<le> pax"
  shows "generateRoomConfigurations pax \<noteq> []"
proof -
  have "(pax, 0, 0) \<in> set (enumTriples pax)"
    using assms by (simp add: enumTriples_member)
  then have "set (map roomTriple (generateRoomConfigurations pax)) \<noteq> {}"
    by (simp only: triples_generate) auto
  then show ?thesis by auto
qed

subsection \<open>The cost of a configuration\<close>

lemma fold_keeps:
  assumes "\<And>x acc. Q acc \<Longrightarrow> Q (f x acc)" and "Q acc"
  shows "Q (fold f xs acc)"
  using assms by (induction xs arbitrary: acc) simp_all

lemma pushConfig_cost:
  assumes "list_all costOk (fst acc)"
  shows "list_all costOk (fst (pushConfig s d t acc))"
  using assms by (cases acc) (simp add: pushConfig_def costOk_def)

lemma twinLoop_cost:
  "list_all costOk (fst acc) \<Longrightarrow> list_all costOk (fst (twinLoop pax s d acc))"
  unfolding twinLoop_def
  by (rule fold_keeps [where Q = "\<lambda>a. list_all costOk (fst a)"]) (simp_all add: pushConfig_cost)

lemma doubleLoop_cost:
  "list_all costOk (fst acc) \<Longrightarrow> list_all costOk (fst (doubleLoop pax s acc))"
  unfolding doubleLoop_def
  by (rule fold_keeps [where Q = "\<lambda>a. list_all costOk (fst a)"]) (simp_all add: twinLoop_cost)

lemma singleLoop_cost:
  "list_all costOk (fst acc) \<Longrightarrow> list_all costOk (fst (singleLoop pax acc))"
  unfolding singleLoop_def
  by (rule fold_keeps [where Q = "\<lambda>a. list_all costOk (fst a)"]) (simp_all add: doubleLoop_cost)

lemma generate_member_cost:
  assumes "c \<in> set (generateRoomConfigurations pax)"
  shows "priceDifference c = (single c + double c + twin c) * 500"
proof -
  have "list_all costOk (fst (singleLoop pax ([], 0)))"
    by (rule singleLoop_cost) simp
  then have "costOk c"
    using assms by (simp add: generateRoomConfigurations_def list_all_iff)
  then show ?thesis by (simp add: costOk_def)
qed

lemma generate_sorted: "sorted (map priceDifference (generateRoomConfigurations pax))"
  by (simp add: generateRoomConfigurations_def)

lemma generate_0:
  "generateRoomConfigurations 0 =
     [\<lparr>id_cfg = ''config-0'', single = 0, double = 0, twin = 0, priceDifference = 0\<rparr>]"
  by code_simp

lemma generate_4:
  "generateRoomConfigurations 4 =
     [\<lparr>id_cfg = ''config-0'', single = 0, double = 0, twin = 2, priceDifference = 1000\<rparr>,
      \<lparr>id_cfg = ''config-1'', single = 0, double = 1, twin = 1, priceDifference = 1000\<rparr>,
      \<lparr>id_cfg = ''config-2'', single = 0, double = 2, twin = 0, priceDifference = 1000\<rparr>,
      \<lparr>id_cfg = ''config-3'', single = 2, double = 0, twin = 1, priceDifference = 1500\<rparr>,
      \<lparr>id_cfg = ''config-4'', single = 2, double = 1, twin = 0, priceDifference = 1500\<rparr>,
      \<lparr>id_cfg = ''config-5'', single = 4, double = 0, twin = 0, priceDifference = 2000\<rparr>]"
  by code_simp

text \<open>
  C1. For every party size, the configurations returned are exactly the triples of
  non-negative room counts with \<open>single + 2 * double + 2 * twin = partySize\<close>: the set of
  returned triples is the set of solutions, no triple is returned twice, and for party size 0
  the result is the one configuration with no room and cost 0. (A negative party size has no
  solution and the loops return nothing, so the statement needs no side condition.)
\<close>

theorem generateRoomConfigurations_exact:
  "set (map roomTriple (generateRoomConfigurations partySize)) =
     {(s, d, t). 0 \<le> s \<and> 0 \<le> d \<and> 0 \<le> t \<and> s + 2 * d + 2 * t = partySize}
   \<and> distinct (map roomTriple (generateRoomConfigurations partySize))
   \<and> generateRoomConfigurations 0 =
       [\<lparr>id_cfg = ''config-0'', single = 0, double = 0, twin = 0, priceDifference = 0\<rparr>]"
  using triples_generate [of partySize] set_enumTriples [of partySize]
    distinct_triples_generate [of partySize] generate_0
  by simp

text \<open>
  C4. For every party size of at least 0 the returned list is sorted by non-decreasing
  \<open>priceDifference\<close>; it is not empty, and no configuration costs less than its first one.
\<close>

theorem generateRoomConfigurations_sorted:
  assumes "0 \<le> partySize"
  shows "sorted (map priceDifference (generateRoomConfigurations partySize))
         \<and> generateRoomConfigurations partySize \<noteq> []
         \<and> (\<forall>c \<in> set (generateRoomConfigurations partySize).
               priceDifference (hd (generateRoomConfigurations partySize)) \<le> priceDifference c)"
proof -
  let ?cs = "generateRoomConfigurations partySize"
  have srt: "sorted (map priceDifference ?cs)" by (rule generate_sorted)
  have ne: "?cs \<noteq> []" using assms by (rule generate_nonempty)
  then obtain c0 rest where split: "?cs = c0 # rest" by (cases ?cs) auto
  have "\<forall>c \<in> set ?cs. priceDifference (hd ?cs) \<le> priceDifference c"
    using srt unfolding split by auto
  with srt ne show ?thesis by simp
qed

theorem generateRoomConfigurations_sorted_witness:
  "(0::int) \<le> 4
   \<and> sorted (map priceDifference (generateRoomConfigurations 4))
   \<and> generateRoomConfigurations 4 \<noteq> []
   \<and> priceDifference (hd (generateRoomConfigurations 4))
       \<le> priceDifference (last (generateRoomConfigurations 4))"
proof -
  have h: "(0::int) \<le> 4" by simp
  have "last (generateRoomConfigurations 4) \<in> set (generateRoomConfigurations 4)"
    by (simp add: generate_4)
  with generateRoomConfigurations_sorted [OF h] show ?thesis by simp
qed

text \<open>
  C5, as the code has it. \<open>generateRoomConfigurations 4\<close> returns six configurations, among
  them 4 singles (2000), 2 doubles (1000) and 2 singles with 1 double (1500). The least cost is
  1000 and three configurations share it: 2 twins, 1 double with 1 twin, and 2 doubles. So
  2 doubles is a cheapest configuration but not the only one, and the list starts with 2 twins.
\<close>

theorem generateRoomConfigurations_4:
  "map (\<lambda>c. (single c, double c, twin c, priceDifference c)) (generateRoomConfigurations 4) =
     [(0, 0, 2, 1000), (0, 1, 1, 1000), (0, 2, 0, 1000),
      (2, 0, 1, 1500), (2, 1, 0, 1500), (4, 0, 0, 2000)]"
  by (simp add: generate_4)

text \<open>
  The claim C5 as stated fails: 2 twin rooms are returned for party size 4 at the same cost
  of 1000 as 2 double rooms, and come first.
\<close>

theorem cheapest_of_4_not_unique:
  "\<lparr>id_cfg = ''config-0'', single = 0, double = 0, twin = 2, priceDifference = 1000\<rparr>
     \<in> set (generateRoomConfigurations 4)
   \<and> \<lparr>id_cfg = ''config-2'', single = 0, double = 2, twin = 0, priceDifference = 1000\<rparr>
     \<in> set (generateRoomConfigurations 4)
   \<and> roomTriple (hd (generateRoomConfigurations 4)) = (0, 0, 2)
   \<and> priceDifference (hd (generateRoomConfigurations 4)) = 1000"
  by (simp add: generate_4 roomTriple_def)

text \<open>
  C6. Every returned configuration costs 500 times its number of rooms, so its cost is not
  negative, and two configurations returned for the same party size with the same number of
  rooms cost the same.
\<close>

theorem priceDifference_by_room_count:
  "\<forall>c \<in> set (generateRoomConfigurations partySize).
     priceDifference c = (single c + double c + twin c) * 500
     \<and> 0 \<le> priceDifference c
     \<and> (\<forall>c' \<in> set (generateRoomConfigurations partySize).
          single c + double c + twin c = single c' + double c' + twin c'
          \<longrightarrow> priceDifference c = priceDifference c')"
proof (intro ballI conjI impI)
  fix c assume c: "c \<in> set (generateRoomConfigurations partySize)"
  show cost: "priceDifference c = (single c + double c + twin c) * 500"
    using c by (rule generate_member_cost)
  show "0 \<le> priceDifference c"
    using generate_member_counts [OF c] cost by simp
  fix c' assume c': "c' \<in> set (generateRoomConfigurations partySize)"
    and same: "single c + double c + twin c = single c' + double c' + twin c'"
  show "priceDifference c = priceDifference c'"
    using cost generate_member_cost [OF c'] same by simp
qed

theorem priceDifference_by_room_count_witness:
  "priceDifference (generateRoomConfigurations 4 ! 0) =
     (single (generateRoomConfigurations 4 ! 0) + double (generateRoomConfigurations 4 ! 0)
        + twin (generateRoomConfigurations 4 ! 0)) * 500
   \<and> 0 \<le> priceDifference (generateRoomConfigurations 4 ! 0)
   \<and> priceDifference (generateRoomConfigurations 4 ! 0)
       = priceDifference (generateRoomConfigurations 4 ! 2)"
proof -
  have m0: "generateRoomConfigurations 4 ! 0 \<in> set (generateRoomConfigurations 4)"
    and m2: "generateRoomConfigurations 4 ! 2 \<in> set (generateRoomConfigurations 4)"
    by (simp_all add: generate_4)
  have same: "single (generateRoomConfigurations 4 ! 0) + double (generateRoomConfigurations 4 ! 0)
                + twin (generateRoomConfigurations 4 ! 0)
              = single (generateRoomConfigurations 4 ! 2) + double (generateRoomConfigurations 4 ! 2)
                + twin (generateRoomConfigurations 4 ! 2)"
    by (simp add: generate_4)
  from priceDifference_by_room_count [of 4] m0 m2 same show ?thesis by blast
qed

section \<open>The price computation\<close>

lemma js_round_of_int: "js_round (of_int n) = n"
  unfolding js_round_def by (rule floor_unique) simp_all

lemma js_round_numeral: "js_round (numeral k) = numeral k"
  using js_round_of_int [of "numeral k"] by simp

lemma getPriceForPax_unfolded:
  "getPriceForPax tour s pax =
     (let tiers = getPriceForPax_pricingTiers tour s; flat = flatPricePerPerson tour s
      in if tiers = [] then flat
         else (case find (\<lambda>t. tier_pax t = pax) tiers of
                 Some t \<Rightarrow> if tier_pricePerPerson t = 0 then flat else tier_pricePerPerson t
               | None \<Rightarrow> if tier_pricePerPerson (last tiers) = 0 then flat
                          else tier_pricePerPerson (last tiers)))"
  by (simp add: getPriceForPax_def Let_def num_or_def split: option.split)

subsection \<open>Rate resolution\<close>

lemma largestPaxTier_last:
  assumes "sorted (map tier_pax (t # ts))"
  shows "largestPaxTier t ts = last (t # ts)"
  using assms unfolding largestPaxTier_def
proof (induction ts arbitrary: t)
  case Nil
  then show ?case by simp
next
  case (Cons u ts)
  have "tier_pax t \<le> tier_pax u" using Cons.prems by simp
  moreover have "sorted (map tier_pax (u # ts))" using Cons.prems by simp
  ultimately show ?case using Cons.IH [of u] by simp
qed

lemma getPriceForPax_cases:
  "getPriceForPax tour s pax =
     (if getPriceForPax_pricingTiers tour s = [] then flatPricePerPerson tour s
      else case find (\<lambda>t. tier_pax t = pax) (getPriceForPax_pricingTiers tour s) of
             Some t \<Rightarrow> num_or (Some (tier_pricePerPerson t)) (flatPricePerPerson tour s)
           | None \<Rightarrow> num_or (Some (tier_pricePerPerson (last (getPriceForPax_pricingTiers tour s))))
                       (flatPricePerPerson tour s))"
  by (simp add: getPriceForPax_def Let_def split: option.split)

lemma find_Some_member: "find P xs = Some x \<Longrightarrow> x \<in> set xs"
  by (induction xs) (auto split: if_splits)

lemma getPriceForPax_refines:
  assumes srt: "sorted (map tier_pax (getPriceForPax_pricingTiers tour s))"
    and nz: "\<forall>t \<in> set (getPriceForPax_pricingTiers tour s). tier_pricePerPerson t \<noteq> 0"
  shows "getPriceForPax tour s pax =
         spec_resolvedRate (getPriceForPax_pricingTiers tour s) (flatPricePerPerson tour s) pax"
proof (cases "getPriceForPax_pricingTiers tour s")
  case Nil
  then show ?thesis by (simp add: getPriceForPax_cases spec_resolvedRate_def)
next
  case (Cons t ts)
  show ?thesis
  proof (cases "find (\<lambda>t. tier_pax t = pax) (getPriceForPax_pricingTiers tour s)")
    case None
    have "last (t # ts) \<in> set (getPriceForPax_pricingTiers tour s)"
      unfolding Cons by (rule last_in_set) simp
    then have "tier_pricePerPerson (last (t # ts)) \<noteq> 0" using nz by blast
    moreover have "largestPaxTier t ts = last (t # ts)"
      using srt unfolding Cons by (rule largestPaxTier_last)
    ultimately show ?thesis
      using None Cons by (simp add: getPriceForPax_cases spec_resolvedRate_def num_or_def)
  next
    case (Some u)
    then have "u \<in> set (getPriceForPax_pricingTiers tour s)" by (rule find_Some_member)
    then have "tier_pricePerPerson u \<noteq> 0" using nz by blast
    then show ?thesis
      using Some Cons by (simp add: getPriceForPax_cases spec_resolvedRate_def num_or_def)
  qed
qed

lemma tierTour_base_3: "basePrice tierTour (initialState\<lparr>adults := 3\<rparr>) = 54000"
  by code_simp

text \<open>
  C2, as the code has it. The rate is the flat rate when there is no tier; else it is taken
  from the first tier of the array whose \<open>pax\<close> equals the number of adults, or from the last
  tier of the array when none matches, and a tier rate of 0 gives way to the flat rate. The
  flat rate is the departure's \<open>pricePerPerson\<close> when present and not 0, else the tour's.
  When the tiers are listed by ascending \<open>pax\<close> and no tier rate is 0, this is the resolution
  of the specification (exact match, else the largest \<open>pax\<close>, else the flat rate). The base
  price is the rounded product, and the tiers (2, 20000), (4, 18000) with 3 adults give 54000.
\<close>

theorem getPriceForPax_resolution:
  "(getPriceForPax_pricingTiers tour s = [] \<longrightarrow>
      getPriceForPax tour s pax = flatPricePerPerson tour s)
   \<and> (\<forall>t. getPriceForPax_pricingTiers tour s \<noteq> [] \<longrightarrow>
          find (\<lambda>t. tier_pax t = pax) (getPriceForPax_pricingTiers tour s) = Some t \<longrightarrow>
          getPriceForPax tour s pax =
            (if tier_pricePerPerson t = 0 then flatPricePerPerson tour s
             else tier_pricePerPerson t))
   \<and> (getPriceForPax_pricingTiers tour s \<noteq> [] \<longrightarrow>
        find (\<lambda>t. tier_pax t = pax) (getPriceForPax_pricingTiers tour s) = None \<longrightarrow>
        getPriceForPax tour s pax =
          (if tier_pricePerPerson (last (getPriceForPax_pricingTiers tour s)) = 0
           then flatPricePerPerson tour s
           else tier_pricePerPerson (last (getPriceForPax_pricingTiers tour s))))
   \<and> flatPricePerPerson tour s =
       (case opt_field (getSelectedDeparture tour s) dep_pricePerPerson of
          Some v \<Rightarrow> if v = 0 then tour_pricePerPerson tour else v
        | None \<Rightarrow> tour_pricePerPerson tour)
   \<and> (sorted (map tier_pax (getPriceForPax_pricingTiers tour s)) \<longrightarrow>
        (\<forall>t \<in> set (getPriceForPax_pricingTiers tour s). tier_pricePerPerson t \<noteq> 0) \<longrightarrow>
        getPriceForPax tour s pax =
          spec_resolvedRate (getPriceForPax_pricingTiers tour s) (flatPricePerPerson tour s) pax)
   \<and> basePrice tour s = js_round (of_int (adults s) * getPriceForPax tour s (adults s))
   \<and> basePrice tierTour (initialState\<lparr>adults := 3\<rparr>) = 54000"
proof (intro conjI allI impI)
  show "flatPricePerPerson tour s =
       (case opt_field (getSelectedDeparture tour s) dep_pricePerPerson of
          Some v \<Rightarrow> if v = 0 then tour_pricePerPerson tour else v
        | None \<Rightarrow> tour_pricePerPerson tour)"
    by (simp add: flatPricePerPerson_def num_or_def split: option.split)
  show "getPriceForPax tour s pax =
          spec_resolvedRate (getPriceForPax_pricingTiers tour s) (flatPricePerPerson tour s) pax"
    if "sorted (map tier_pax (getPriceForPax_pricingTiers tour s))"
      and "\<forall>t \<in> set (getPriceForPax_pricingTiers tour s). tier_pricePerPerson t \<noteq> 0"
    using that by (rule getPriceForPax_refines)
  show "basePrice tierTour (initialState\<lparr>adults := 3\<rparr>) = 54000"
    by (rule tierTour_base_3)
qed (simp_all add: getPriceForPax_cases num_or_def basePrice_def pricePerPerson_def)

theorem getPriceForPax_resolution_witness:
  "sorted (map tier_pax (getPriceForPax_pricingTiers tierTour (initialState\<lparr>adults := 3\<rparr>)))
   \<and> getPriceForPax tierTour (initialState\<lparr>adults := 3\<rparr>) 3 = 18000
   \<and> spec_resolvedRate (getPriceForPax_pricingTiers tierTour (initialState\<lparr>adults := 3\<rparr>))
        (flatPricePerPerson tierTour (initialState\<lparr>adults := 3\<rparr>)) 3 = 18000"
proof -
  let ?s = "initialState\<lparr>adults := 3\<rparr>"
  have tiers: "getPriceForPax_pricingTiers tierTour ?s =
      [\<lparr>tier_pax = 2, tier_pricePerPerson = 20000\<rparr>, \<lparr>tier_pax = 4, tier_pricePerPerson = 18000\<rparr>]"
    by code_simp
  have srt: "sorted (map tier_pax (getPriceForPax_pricingTiers tierTour ?s))"
    and nz: "\<forall>t \<in> set (getPriceForPax_pricingTiers tierTour ?s). tier_pricePerPerson t \<noteq> 0"
    by (simp_all add: tiers)
  have code: "getPriceForPax tierTour ?s 3 = 18000"
    by code_simp
  have "getPriceForPax tierTour ?s 3 =
        spec_resolvedRate (getPriceForPax_pricingTiers tierTour ?s) (flatPricePerPerson tierTour ?s) 3"
    using getPriceForPax_resolution [of tierTour ?s 3] srt nz by blast
  with code srt show ?thesis by simp
qed

text \<open>
  The claim C2 as stated fails when the tiers are not listed by ascending \<open>pax\<close>: with the
  tiers (4, 18000), (2, 20000) and 3 adults the code takes the last tier of the array, at
  20000, where the tier with the largest \<open>pax\<close> has the rate 18000.
\<close>

theorem last_tier_not_largest_pax:
  "getPriceForPax descendingTierTour (initialState\<lparr>adults := 3\<rparr>) 3 = 20000
   \<and> spec_resolvedRate (tour_pricingTiers descendingTierTour)
        (flatPricePerPerson descendingTierTour (initialState\<lparr>adults := 3\<rparr>)) 3 = 18000
   \<and> basePrice descendingTierTour (initialState\<lparr>adults := 3\<rparr>) = 60000"
  by code_simp

subsection \<open>The total\<close>

lemma scenario_prices:
  "basePrice scenarioTour scenarioState = 50000
   \<and> childrenPrice scenarioTour scenarioState = 0
   \<and> roomPrice scenarioState = 500
   \<and> addonsPrice scenarioTour scenarioState = 0
   \<and> totalPrice scenarioTour scenarioState = 50500"
  by code_simp

text \<open>
  C3. Each of the four components is the \<open>Math.round\<close> of its own quantity, hence an
  integer, and the total is their sum (rounding the sum of integers changes nothing). In
  the scenario of one tier (2, 25000), two adults, no child, a room configuration costing 500
  and no add-on, the breakdown is 50000, 0, 500, 0 and 50500.
\<close>

theorem totalPrice_is_sum_of_rounded:
  "totalPrice tour s = basePrice tour s + childrenPrice tour s + roomPrice s + addonsPrice tour s
   \<and> basePrice tour s = js_round (of_int (adults s) * pricePerPerson tour s)
   \<and> childrenPrice tour s =
       js_round (of_int (childrenWithBed s) * childWithBedPrice tour s
                 + of_int (childrenWithoutBed s) * childWithoutBedPrice tour s)
   \<and> roomPrice s =
       (case selectedRoomConfig s of Some c \<Rightarrow> js_round (of_int (priceDifference c)) | None \<Rightarrow> 0)
   \<and> addonsPrice tour s =
       js_round (fold (addonReducer (availableAddons tour s)) (selectedAddons s) 0)
   \<and> basePrice scenarioTour scenarioState = 50000
   \<and> childrenPrice scenarioTour scenarioState = 0
   \<and> roomPrice scenarioState = 500
   \<and> addonsPrice scenarioTour scenarioState = 0
   \<and> totalPrice scenarioTour scenarioState = 50500"
proof -
  have "totalPrice tour s =
        basePrice tour s + childrenPrice tour s + roomPrice s + addonsPrice tour s"
    unfolding totalPrice_def by (rule js_round_of_int)
  moreover have "basePrice tour s = js_round (of_int (adults s) * pricePerPerson tour s)"
    by (simp add: basePrice_def)
  moreover have "childrenPrice tour s =
       js_round (of_int (childrenWithBed s) * childWithBedPrice tour s
                 + of_int (childrenWithoutBed s) * childWithoutBedPrice tour s)"
    by (simp add: childrenPrice_def)
  moreover have "roomPrice s =
       (case selectedRoomConfig s of Some c \<Rightarrow> js_round (of_int (priceDifference c)) | None \<Rightarrow> 0)"
    by (simp add: roomPrice_def)
  moreover have "addonsPrice tour s =
       js_round (fold (addonReducer (availableAddons tour s)) (selectedAddons s) 0)"
    by (simp add: addonsPrice_def)
  ultimately show ?thesis using scenario_prices by simp
qed

subsection \<open>Departure overrides\<close>

lemma december_selected:
  "getSelectedDeparture scheduledTour decemberFamily = Some decemberDeparture"
  by code_simp

lemma free_child_selected:
  "getSelectedDeparture scheduledTour (initialState\<lparr>selectedDate := ''2025-12-15''\<rparr>)
     = Some freeChildDeparture"
  by code_simp

lemma flat_rate_selected:
  "getSelectedDeparture flatRateTour (initialState\<lparr>selectedDate := ''2026-01-05''\<rparr>)
     = Some flatRateDeparture"
  by code_simp

text \<open>
  C7, as the code has it. When a departure is selected, the base price is computed from the
  departure's \<open>pricingTiers\<close> when they are present (also when they are empty), else from the
  tour's; the departure's \<open>pricePerPerson\<close> enters the base price only as the flat rate, that
  is when the tier list in use is empty or the chosen tier's rate is 0, and then it replaces
  the tour's \<open>pricePerPerson\<close> when it is present and not 0. The children price is computed
  from the departure's \<open>childWithBed\<close> and \<open>childWithoutBed\<close> when they are present and not 0,
  else from the tour's. The add-ons price is computed from the departure's \<open>addons\<close> when they
  are present (also when they are empty), else from the tour's.
\<close>

theorem departure_overrides_tour:
  assumes "getSelectedDeparture tour s = Some d"
  shows "getPriceForPax_pricingTiers tour s =
           (case dep_pricingTiers d of Some ts \<Rightarrow> ts | None \<Rightarrow> tour_pricingTiers tour)
         \<and> availableAddons tour s =
           (case dep_addons d of Some xs \<Rightarrow> xs | None \<Rightarrow> tour_addons tour)
         \<and> flatPricePerPerson tour s =
           (case dep_pricePerPerson d of
              Some v \<Rightarrow> if v = 0 then tour_pricePerPerson tour else v
            | None \<Rightarrow> tour_pricePerPerson tour)
         \<and> childWithBedPrice tour s =
           (case dep_childWithBed d of
              Some v \<Rightarrow> if v = 0 then tour_childWithBed tour else v
            | None \<Rightarrow> tour_childWithBed tour)
         \<and> childWithoutBedPrice tour s =
           (case dep_childWithoutBed d of
              Some v \<Rightarrow> if v = 0 then tour_childWithoutBed tour else v
            | None \<Rightarrow> tour_childWithoutBed tour)
         \<and> basePrice tour s =
           js_round (of_int (adults s) *
             (let tiers = (case dep_pricingTiers d of
                             Some ts \<Rightarrow> ts | None \<Rightarrow> tour_pricingTiers tour);
                  flat = (case dep_pricePerPerson d of
                            Some v \<Rightarrow> if v = 0 then tour_pricePerPerson tour else v
                          | None \<Rightarrow> tour_pricePerPerson tour)
              in if tiers = [] then flat
                 else (case find (\<lambda>t. tier_pax t = adults s) tiers of
                         Some t \<Rightarrow>
                           if tier_pricePerPerson t = 0 then flat else tier_pricePerPerson t
                       | None \<Rightarrow>
                           if tier_pricePerPerson (last tiers) = 0 then flat
                           else tier_pricePerPerson (last tiers))))
         \<and> childrenPrice tour s =
           js_round (of_int (childrenWithBed s) *
                       (case dep_childWithBed d of
                          Some v \<Rightarrow> if v = 0 then tour_childWithBed tour else v
                        | None \<Rightarrow> tour_childWithBed tour)
                     + of_int (childrenWithoutBed s) *
                       (case dep_childWithoutBed d of
                          Some v \<Rightarrow> if v = 0 then tour_childWithoutBed tour else v
                        | None \<Rightarrow> tour_childWithoutBed tour))
         \<and> addonsPrice tour s =
           js_round (fold (addonReducer (case dep_addons d of
                                           Some xs \<Rightarrow> xs | None \<Rightarrow> tour_addons tour))
                          (selectedAddons s) 0)"
proof -
  have tiers: "getPriceForPax_pricingTiers tour s =
           (case dep_pricingTiers d of Some ts \<Rightarrow> ts | None \<Rightarrow> tour_pricingTiers tour)"
    using assms by (simp add: getPriceForPax_pricingTiers_def opt_field_def arr_or_def
        split: option.split)
  have addons: "availableAddons tour s =
           (case dep_addons d of Some xs \<Rightarrow> xs | None \<Rightarrow> tour_addons tour)"
    using assms by (simp add: availableAddons_def opt_field_def arr_or_def split: option.split)
  have flat: "flatPricePerPerson tour s =
           (case dep_pricePerPerson d of
              Some v \<Rightarrow> if v = 0 then tour_pricePerPerson tour else v
            | None \<Rightarrow> tour_pricePerPerson tour)"
    using assms by (simp add: flatPricePerPerson_def opt_field_def num_or_def split: option.split)
  have cwb: "childWithBedPrice tour s =
           (case dep_childWithBed d of
              Some v \<Rightarrow> if v = 0 then tour_childWithBed tour else v
            | None \<Rightarrow> tour_childWithBed tour)"
    using assms by (simp add: childWithBedPrice_def opt_field_def num_or_def split: option.split)
  have cwob: "childWithoutBedPrice tour s =
           (case dep_childWithoutBed d of
              Some v \<Rightarrow> if v = 0 then tour_childWithoutBed tour else v
            | None \<Rightarrow> tour_childWithoutBed tour)"
    using assms by (simp add: childWithoutBedPrice_def opt_field_def num_or_def
        split: option.split)
  have base: "basePrice tour s =
      js_round (of_int (adults s) *
        (let tiers = getPriceForPax_pricingTiers tour s; flat = flatPricePerPerson tour s
         in if tiers = [] then flat
            else (case find (\<lambda>t. tier_pax t = adults s) tiers of
                    Some t \<Rightarrow> if tier_pricePerPerson t = 0 then flat else tier_pricePerPerson t
                  | None \<Rightarrow> if tier_pricePerPerson (last tiers) = 0 then flat
                             else tier_pricePerPerson (last tiers))))"
    by (simp only: basePrice_def pricePerPerson_def getPriceForPax_unfolded)
  have children: "childrenPrice tour s =
      js_round (of_int (childrenWithBed s) * childWithBedPrice tour s
                + of_int (childrenWithoutBed s) * childWithoutBedPrice tour s)"
    by (simp add: childrenPrice_def)
  have ap: "addonsPrice tour s =
      js_round (fold (addonReducer (availableAddons tour s)) (selectedAddons s) 0)"
    by (simp add: addonsPrice_def)
  show ?thesis
    unfolding base children ap tiers addons flat cwb cwob by simp
qed

text \<open>
  Three departures. On 2025-12-01 the departure's own tier, child prices and add-on are
  charged. On 2025-12-15 the departure has no tiers of its own, so the tour's tier applies
  and the departure's \<open>pricePerPerson\<close> of 30000 is not read. On 2026-01-05 the departure's
  empty tier list replaces the tour's tiers, and its \<open>pricePerPerson\<close> is the rate.
\<close>

theorem departure_overrides_tour_witness:
  "getSelectedDeparture scheduledTour decemberFamily = Some decemberDeparture
   \<and> basePrice scheduledTour decemberFamily = 56000
   \<and> childrenPrice scheduledTour decemberFamily = 20000
   \<and> addonsPrice scheduledTour decemberFamily = 1500
   \<and> getSelectedDeparture scheduledTour (initialState\<lparr>selectedDate := ''2025-12-15''\<rparr>)
       = Some freeChildDeparture
   \<and> dep_pricePerPerson freeChildDeparture = Some 30000
   \<and> basePrice scheduledTour (initialState\<lparr>selectedDate := ''2025-12-15''\<rparr>) = 40000
   \<and> getSelectedDeparture flatRateTour (initialState\<lparr>selectedDate := ''2026-01-05''\<rparr>)
       = Some flatRateDeparture
   \<and> basePrice flatRateTour (initialState\<lparr>selectedDate := ''2026-01-05''\<rparr>) = 60000"
proof -
  have december: "basePrice scheduledTour decemberFamily = 56000
      \<and> childrenPrice scheduledTour decemberFamily = 20000
      \<and> addonsPrice scheduledTour decemberFamily = 1500"
    using departure_overrides_tour [OF december_selected]
    by (simp add: decemberDeparture_def decemberFamily_def initialState_def addonReducer_def
        num_or_def js_round_numeral)
  have tour_tier: "basePrice scheduledTour (initialState\<lparr>selectedDate := ''2025-12-15''\<rparr>) = 40000"
    using departure_overrides_tour [OF free_child_selected]
    by (simp add: freeChildDeparture_def initialState_def scheduledTour_def tierTour_def
        js_round_numeral)
  have flat_rate: "basePrice flatRateTour (initialState\<lparr>selectedDate := ''2026-01-05''\<rparr>) = 60000"
    using departure_overrides_tour [OF flat_rate_selected]
    by (simp add: flatRateDeparture_def initialState_def js_round_numeral)
  have unread: "dep_pricePerPerson freeChildDeparture = Some 30000"
    by (simp add: freeChildDeparture_def)
  from december tour_tier flat_rate unread december_selected free_child_selected
    flat_rate_selected
  show ?thesis by blast
qed

text \<open>
  The claim C7 as stated fails for a price of 0: the departure of 2025-12-15 carries
  \<open>childWithBed = 0\<close>, and the tour's 14900 is charged for a child with bed all the same.
\<close>

theorem zero_departure_price_not_used:
  "getSelectedDeparture scheduledTour
     (initialState\<lparr>selectedDate := ''2025-12-15'', childrenWithBed := 1\<rparr>)
     = Some freeChildDeparture
   \<and> dep_childWithBed freeChildDeparture = Some 0
   \<and> childWithBedPrice scheduledTour
       (initialState\<lparr>selectedDate := ''2025-12-15'', childrenWithBed := 1\<rparr>) = 14900
   \<and> childrenPrice scheduledTour
       (initialState\<lparr>selectedDate := ''2025-12-15'', childrenWithBed := 1\<rparr>) = 14900"
  by code_simp

subsection \<open>Add-ons\<close>

lemma fold_addonReducer:
  "fold (addonReducer addons) ids acc =
     acc + sum_list (map (\<lambda>i. case find (\<lambda>a. addon_id a = i) addons of
                                 Some a \<Rightarrow> addon_price a | None \<Rightarrow> 0) ids)"
proof (induction ids arbitrary: acc)
  case Nil
  then show ?case by simp
next
  case (Cons i ids)
  have "addonReducer addons i acc =
        acc + (case find (\<lambda>a. addon_id a = i) addons of Some a \<Rightarrow> addon_price a | None \<Rightarrow> 0)"
    by (simp add: addonReducer_def num_or_def split: option.split)
  then show ?case by (simp add: Cons.IH)
qed

lemma find_None_unknown:
  "i \<notin> set (map addon_id addons) \<Longrightarrow> find (\<lambda>a. addon_id a = i) addons = None"
  by (induction addons) auto

lemma sum_matching_id:
  assumes "distinct (map addon_id addons)"
  shows "sum_list (map addon_price (filter (\<lambda>a. addon_id a = i) addons)) =
         (case find (\<lambda>a. addon_id a = i) addons of Some a \<Rightarrow> addon_price a | None \<Rightarrow> 0)"
  using assms
proof (induction addons)
  case Nil
  then show ?case by simp
next
  case (Cons a addons)
  show ?case
  proof (cases "addon_id a = i")
    case True
    then have "i \<notin> set (map addon_id addons)" using Cons.prems by auto
    then have "filter (\<lambda>a. addon_id a = i) addons = []"
      by (auto simp: filter_empty_conv)
    then show ?thesis using True by simp
  next
    case False
    then show ?thesis using Cons by simp
  qed
qed

lemma sum_filter_split:
  "sum_list (map f (filter (\<lambda>a. g a = i \<or> g a \<in> S) xs)) + 
   sum_list (map f (filter (\<lambda>a. g a = i \<and> g a \<in> S) xs)) =
   sum_list (map f (filter (\<lambda>a. g a = i) xs)) + sum_list (map f (filter (\<lambda>a. g a \<in> S) xs))"
  for f :: "'a \<Rightarrow> rat"
  by (induction xs) auto

lemma sum_selected_ids:
  assumes "distinct (map addon_id addons)" and "distinct ids"
  shows "sum_list (map (\<lambda>i. case find (\<lambda>a. addon_id a = i) addons of
                               Some a \<Rightarrow> addon_price a | None \<Rightarrow> 0) ids) =
         spec_addonsSum addons ids"
  using assms(2)
proof (induction ids)
  case Nil
  then show ?case by (simp add: spec_addonsSum_def)
next
  case (Cons i ids)
  have notin: "i \<notin> set ids" using Cons.prems by simp
  then have "filter (\<lambda>a. addon_id a = i \<and> addon_id a \<in> set ids) addons = []"
    by (auto simp: filter_empty_conv)
  then have "sum_list (map addon_price (filter (\<lambda>a. addon_id a = i \<or> addon_id a \<in> set ids) addons)) =
        sum_list (map addon_price (filter (\<lambda>a. addon_id a = i) addons)) +
        sum_list (map addon_price (filter (\<lambda>a. addon_id a \<in> set ids) addons))"
    using sum_filter_split [of addon_price addon_id i "set ids" addons] by simp
  then have "spec_addonsSum addons (i # ids) =
        (case find (\<lambda>a. addon_id a = i) addons of Some a \<Rightarrow> addon_price a | None \<Rightarrow> 0) +
        spec_addonsSum addons ids"
    by (simp add: spec_addonsSum_def sum_matching_id [OF assms(1)])
  then show ?case using Cons by simp
qed

lemma availableAddons_selectedAddons [simp]:
  "availableAddons tour (s\<lparr>selectedAddons := ids\<rparr>) = availableAddons tour s"
  by (simp add: availableAddons_def getSelectedDeparture_def split: option.split)

lemma sum_known_ids:
  "sum_list (map (\<lambda>i. case find (\<lambda>a. addon_id a = i) addons of
                        Some a \<Rightarrow> addon_price a | None \<Rightarrow> 0)
                 (filter (\<lambda>i. i \<in> set (map addon_id addons)) ids)) =
   sum_list (map (\<lambda>i. case find (\<lambda>a. addon_id a = i) addons of
                        Some a \<Rightarrow> addon_price a | None \<Rightarrow> 0) ids)"
proof (induction ids)
  case Nil
  then show ?case by simp
next
  case (Cons i ids)
  then show ?case using find_None_unknown [of i addons] by auto
qed

text \<open>
  C8, as the code has it. The add-ons price is the rounded sum, over the selected ids, of
  the price of the first available add-on with that id, an id with no such add-on counting 0;
  so dropping the unknown ids from the selection does not change the price, and no branch of
  the computation fails. When the available add-ons have pairwise distinct ids and no id is
  selected twice, that sum is the sum of the prices of every available add-on whose id is
  selected.
\<close>

theorem addonsPrice_sum:
  "addonsPrice tour s =
     js_round (sum_list (map (\<lambda>i. case find (\<lambda>a. addon_id a = i) (availableAddons tour s) of
                                     Some a \<Rightarrow> addon_price a | None \<Rightarrow> 0)
                              (selectedAddons s)))
   \<and> addonsPrice tour
        (s\<lparr>selectedAddons :=
             filter (\<lambda>i. i \<in> set (map addon_id (availableAddons tour s))) (selectedAddons s)\<rparr>)
       = addonsPrice tour s
   \<and> (distinct (map addon_id (availableAddons tour s)) \<longrightarrow> distinct (selectedAddons s) \<longrightarrow>
        addonsPrice tour s =
          js_round (spec_addonsSum (availableAddons tour s) (selectedAddons s)))"
proof (intro conjI impI)
  show first: "addonsPrice tour s =
     js_round (sum_list (map (\<lambda>i. case find (\<lambda>a. addon_id a = i) (availableAddons tour s) of
                                     Some a \<Rightarrow> addon_price a | None \<Rightarrow> 0)
                              (selectedAddons s)))"
    by (simp add: addonsPrice_def fold_addonReducer)
  show "addonsPrice tour
        (s\<lparr>selectedAddons :=
             filter (\<lambda>i. i \<in> set (map addon_id (availableAddons tour s))) (selectedAddons s)\<rparr>)
       = addonsPrice tour s"
    using sum_known_ids [of "availableAddons tour s" "selectedAddons s"]
    by (simp add: addonsPrice_def fold_addonReducer)
  show "addonsPrice tour s = js_round (spec_addonsSum (availableAddons tour s) (selectedAddons s))"
    if "distinct (map addon_id (availableAddons tour s))" and "distinct (selectedAddons s)"
    using first sum_selected_ids [OF that] by simp
qed

theorem addonsPrice_sum_witness:
  "distinct (map addon_id (availableAddons scheduledTour
       (initialState\<lparr>selectedDate := ''2025-12-01'', selectedAddons := [''guide'', ''spa'']\<rparr>)))
   \<and> spec_addonsSum
        (availableAddons scheduledTour
          (initialState\<lparr>selectedDate := ''2025-12-01'', selectedAddons := [''guide'', ''spa'']\<rparr>))
        [''guide'', ''spa''] = 1500
   \<and> addonsPrice scheduledTour
        (initialState\<lparr>selectedDate := ''2025-12-01'', selectedAddons := [''guide'', ''spa'']\<rparr>)
       = 1500"
proof -
  let ?s = "initialState\<lparr>selectedDate := ''2025-12-01'', selectedAddons := [''guide'', ''spa'']\<rparr>"
  have sel: "selectedAddons ?s = [''guide'', ''spa'']" by simp
  have d1: "distinct (map addon_id (availableAddons scheduledTour ?s))" by code_simp
  have d2: "distinct (selectedAddons ?s)" by (simp add: sel)
  have sum: "spec_addonsSum (availableAddons scheduledTour ?s) [''guide'', ''spa''] = 1500"
    by code_simp
  have "addonsPrice scheduledTour ?s =
        js_round (spec_addonsSum (availableAddons scheduledTour ?s) (selectedAddons ?s))"
    using addonsPrice_sum [of scheduledTour ?s] d1 d2 by blast
  then have "addonsPrice scheduledTour ?s = js_round (of_int 1500)"
    by (simp only: sel sum) simp
  then have "addonsPrice scheduledTour ?s = 1500"
    by (simp only: js_round_of_int)
  with d1 sum show ?thesis by blast
qed

text \<open>
  The claim C8 as stated fails when two available add-ons share an id: with add-ons of 1000
  and 2500 both under the id \<open>guide\<close> and that id selected, the code adds the first one only.
\<close>

theorem shared_addon_id_counted_once:
  "addonsPrice twoGuidesTour (initialState\<lparr>selectedAddons := [''guide'']\<rparr>) = 1000
   \<and> spec_addonsSum
        (availableAddons twoGuidesTour (initialState\<lparr>selectedAddons := [''guide'']\<rparr>))
        (selectedAddons (initialState\<lparr>selectedAddons := [''guide'']\<rparr>)) = 3500"
  by code_simp

section \<open>The booking form\<close>

subsection \<open>An invariant of the reachable states\<close>

lemma roomInv_init: "roomInv initialState"
  by (simp add: roomInv_def initialState_def)

lemma handleBooking_fst_fields:
  "selectedRoomConfig (fst (handleBooking tour s)) = selectedRoomConfig s"
  "adults (fst (handleBooking tour s)) = adults s"
  "childrenWithBed (fst (handleBooking tour s)) = childrenWithBed s"
  "childrenWithoutBed (fst (handleBooking tour s)) = childrenWithoutBed s"
  "selectedAddons (fst (handleBooking tour s)) = selectedAddons s"
  "selectedDate (fst (handleBooking tour s)) = selectedDate s"
  by (simp_all add: handleBooking_def Let_def)

lemma handleBookingSettled_fields:
  "selectedRoomConfig (handleBookingSettled out s) = selectedRoomConfig s"
  "adults (handleBookingSettled out s) = adults s"
  "childrenWithBed (handleBookingSettled out s) = childrenWithBed s"
  "childrenWithoutBed (handleBookingSettled out s) = childrenWithoutBed s"
  "selectedAddons (handleBookingSettled out s) = selectedAddons s"
  "selectedDate (handleBookingSettled out s) = selectedDate s"
  by (simp_all add: handleBookingSettled_def split: outcome.split)

lemma roomInv_effect:
  "roomInv s' \<Longrightarrow> roomInv (roomConfigurationEffect s s')"
  by (simp add: roomInv_def roomConfigurationEffect_def totalPaxForRooms_def)

lemma roomInv_handler:
  assumes "roomInv s"
  shows "roomInv (handler tour e s)"
proof (cases e)
  case (SelectDate x1)
  then show ?thesis using assms by (simp add: handler_def roomInv_def totalPaxForRooms_def)
next
  case AdultsMinus
  then show ?thesis using assms 
    by (auto simp add: handler_def roomInv_def totalPaxForRooms_def adultsMinusClick_def handlePassengerChange_def)
next
  case AdultsPlus
  then show ?thesis using assms 
    by (auto simp add: handler_def roomInv_def totalPaxForRooms_def adultsPlusClick_def handlePassengerChange_def)
next
  case ChildrenWithBedMinus
  then show ?thesis using assms 
    by (auto simp add: handler_def roomInv_def totalPaxForRooms_def childrenWithBedMinusClick_def handlePassengerChange_def)
next
  case ChildrenWithBedPlus
  then show ?thesis using assms 
    by (auto simp add: handler_def roomInv_def totalPaxForRooms_def childrenWithBedPlusClick_def handlePassengerChange_def)
next
  case ChildrenWithoutBedMinus
  then show ?thesis using assms 
    by (auto simp add: handler_def roomInv_def totalPaxForRooms_def childrenWithoutBedMinusClick_def handlePassengerChange_def)
next
  case ChildrenWithoutBedPlus
  then show ?thesis using assms 
    by (auto simp add: handler_def roomInv_def totalPaxForRooms_def childrenWithoutBedPlusClick_def handlePassengerChange_def)
next
  case (SelectRoom i)
  then show ?thesis using assms 
    by (auto simp add: handler_def roomInv_def totalPaxForRooms_def)
next
  case (ToggleAddon x9)
  then show ?thesis using assms
    by (auto simp add: handler_def roomInv_def totalPaxForRooms_def handleAddonToggle_def)
next
  case (SetCustomerName x10)
  then show ?thesis using assms by (simp add: handler_def roomInv_def totalPaxForRooms_def)
next
  case (SetCustomerEmail x11)
  then show ?thesis using assms by (simp add: handler_def roomInv_def totalPaxForRooms_def)
next
  case (SetCustomerPhone x12)
  then show ?thesis using assms by (simp add: handler_def roomInv_def totalPaxForRooms_def)
next
  case Book
  then show ?thesis using assms by (simp add: handler_def roomInv_def totalPaxForRooms_def handleBooking_fst_fields)
next
  case (BookingSettled x14)
  then show ?thesis using assms by (simp add: handler_def roomInv_def totalPaxForRooms_def handleBookingSettled_fields)
qed

lemma roomInv_step: "roomInv s \<Longrightarrow> roomInv (step tour s e)"
  unfolding step_def by (rule roomInv_effect) (rule roomInv_handler)

lemma reachable_roomInv: "reachable tour s \<Longrightarrow> roomInv s"
  by (induction rule: reachable.induct) (simp_all add: roomInv_init roomInv_step)

lemma reachable_foldl: "reachable tour s \<Longrightarrow> reachable tour (foldl (step tour) s es)"
  by (induction es arbitrary: s) (simp_all add: reachable_step)

lemma reachable_run: "reachable tour (run tour es)"
  unfolding run_def by (rule reachable_foldl) (rule reachable_init)

lemma reachable_beds:
  assumes "reachable tour s" and "selectedRoomConfig s = Some c"
  shows "single c + 2 * double c + 2 * twin c = adults s + childrenWithBed s"
proof -
  have "roomInv s" using assms(1) by (rule reachable_roomInv)
  then have "c \<in> set (generateRoomConfigurations (totalPaxForRooms s))"
    using assms(2) by (simp add: roomInv_def)
  then show ?thesis
    using generate_member_counts [of c "totalPaxForRooms s"] by (simp add: totalPaxForRooms_def)
qed

subsection \<open>Submitting the form\<close>

lemma handleBooking_forwards:
  "snd (handleBooking tour s) \<noteq> None \<longleftrightarrow>
     selectedDate s \<noteq> ''''
     \<and> \<not> (selectedRoomConfig s = None \<and> adults s > 0)
     \<and> \<not> totalTravelers s < minTravelers tour
     \<and> \<not> totalTravelers s > maxTravelers tour
     \<and> customerName s \<noteq> '''' \<and> customerEmail s \<noteq> '''' \<and> customerPhone s \<noteq> ''''"
  by (simp add: handleBooking_def Let_def totalTravelers_def)

lemma handleBooking_rejects:
  assumes "snd (handleBooking tour s) = None"
  shows "error (fst (handleBooking tour s)) \<noteq> ''''
         \<and> fst (handleBooking tour s) = s\<lparr>error := error (fst (handleBooking tour s))\<rparr>"
  using assms by (auto simp add: handleBooking_def Let_def totalTravelers_def split: if_splits)

lemma reachable_valid_iff:
  assumes "reachable tour s"
  shows "spec_bookingValid tour s \<longleftrightarrow> snd (handleBooking tour s) \<noteq> None"
proof -
  have inv: "roomInv s" using assms by (rule reachable_roomInv)
  then have ad: "adults s > 0" by (simp add: roomInv_def)
  show ?thesis
  proof (cases "selectedRoomConfig s")
    case None
    then have "\<not> spec_bookingValid tour s" using ad
      by (simp add: spec_bookingValid_def)
    moreover have "\<not> snd (handleBooking tour s) \<noteq> None"
      unfolding handleBooking_forwards using None ad by simp
    ultimately show ?thesis by blast
  next
    case (Some c)
    have "single c + 2 * double c + 2 * twin c = adults s + childrenWithBed s"
      using assms Some by (rule reachable_beds)
    then have "spec_bookingValid tour s \<longleftrightarrow>
        selectedDate s \<noteq> ''''
        \<and> \<not> totalTravelers s < minTravelers tour
        \<and> \<not> totalTravelers s > maxTravelers tour
        \<and> customerName s \<noteq> '''' \<and> customerEmail s \<noteq> '''' \<and> customerPhone s \<noteq> ''''"
      using Some ad by (auto simp add: spec_bookingValid_def totalTravelers_def)
    then show ?thesis
      unfolding handleBooking_forwards using Some by simp
  qed
qed

lemma completedForm_forwards: "snd (handleBooking tierTour completedForm) \<noteq> None"
  by code_simp

text \<open>
  C9. In every state the form can reach, \<open>handleBooking\<close> passes a booking request on exactly
  when the validity rules hold: a date is selected, a room configuration is selected whose beds
  add up to adults plus children with bed, the head count is within the tour's limits, and
  name, email and phone are not empty. (The handler tests that a configuration is selected;
  that its beds match the party is an invariant of the form.) When a rule is violated no
  request is made, a non-empty message is stored in \<open>error\<close>, and nothing else changes.
\<close>

theorem handleBooking_forwards_iff_valid:
  assumes "reachable tour s"
  shows "(snd (handleBooking tour s) \<noteq> None \<longleftrightarrow> spec_bookingValid tour s)
         \<and> (\<not> spec_bookingValid tour s \<longrightarrow>
              snd (handleBooking tour s) = None
              \<and> error (fst (handleBooking tour s)) \<noteq> ''''
              \<and> fst (handleBooking tour s) = s\<lparr>error := error (fst (handleBooking tour s))\<rparr>)"
proof -
  have iff: "snd (handleBooking tour s) \<noteq> None \<longleftrightarrow> spec_bookingValid tour s"
    using reachable_valid_iff [OF assms] by simp
  moreover have "snd (handleBooking tour s) = None
      \<and> error (fst (handleBooking tour s)) \<noteq> ''''
      \<and> fst (handleBooking tour s) = s\<lparr>error := error (fst (handleBooking tour s))\<rparr>"
    if "\<not> spec_bookingValid tour s"
  proof -
    have "snd (handleBooking tour s) = None" using that iff by simp
    then show ?thesis using handleBooking_rejects [of tour s] by simp
  qed
  ultimately show ?thesis by blast
qed

theorem handleBooking_forwards_iff_valid_witness:
  "reachable tierTour completedForm
   \<and> snd (handleBooking tierTour completedForm) \<noteq> None
   \<and> spec_bookingValid tierTour completedForm"
proof -
  have r: "reachable tierTour completedForm"
    unfolding completedForm_def by (rule reachable_run)
  from handleBooking_forwards_iff_valid [OF r] completedForm_forwards r show ?thesis
    by blast
qed

subsection \<open>Resetting the room selection\<close>

lemma handler_counts_changed:
  assumes "adults (handler tour e s) \<noteq> adults s
           \<or> childrenWithBed (handler tour e s) \<noteq> childrenWithBed s
           \<or> childrenWithoutBed (handler tour e s) \<noteq> childrenWithoutBed s"
  shows "selectedRoomConfig (handler tour e s) = None"
  using assms
  by (cases e)
    (auto simp add: handler_def handlePassengerChange_def adultsMinusClick_def
      adultsPlusClick_def childrenWithBedMinusClick_def childrenWithBedPlusClick_def
      childrenWithoutBedMinusClick_def childrenWithoutBedPlusClick_def handleAddonToggle_def
      handleBooking_fst_fields handleBookingSettled_fields split: if_splits)

lemma effect_fields:
  "adults (roomConfigurationEffect prev s) = adults s"
  "childrenWithBed (roomConfigurationEffect prev s) = childrenWithBed s"
  "childrenWithoutBed (roomConfigurationEffect prev s) = childrenWithoutBed s"
  "selectedDate (roomConfigurationEffect prev s) = selectedDate s"
  "selectedRoomConfig s = None \<Longrightarrow> selectedRoomConfig (roomConfigurationEffect prev s) = None"
  by (simp_all add: roomConfigurationEffect_def)

lemma step_SelectDate:
  "adults (step tour s (SelectDate d)) = adults s"
  "childrenWithBed (step tour s (SelectDate d)) = childrenWithBed s"
  "childrenWithoutBed (step tour s (SelectDate d)) = childrenWithoutBed s"
  "selectedDate s \<noteq> '''' \<Longrightarrow>
     selectedRoomConfig (step tour s (SelectDate d)) = selectedRoomConfig s"
  by (simp_all add: step_def handler_def roomConfigurationEffect_def roomConfigurationMounted_def
      totalPaxForRooms_def)

lemma roomChosen_then_adult:
  "selectedRoomConfig roomChosen \<noteq> None
   \<and> adults (step tierTour roomChosen AdultsPlus) \<noteq> adults roomChosen"
  by code_simp

text \<open>
  C10, as the code has it. An event that changes the number of adults, of children with bed
  or of children without bed leaves no room configuration selected. Selecting a departure date
  changes none of these counts and, once a date has been selected before, leaves the room
  selection as it is. In every reachable state the beds of a selected configuration add up to
  adults plus children with bed, so no configuration of another party size stays selected.
\<close>

theorem passenger_change_resets_room:
  "(adults (step tour s e) \<noteq> adults s
      \<or> childrenWithBed (step tour s e) \<noteq> childrenWithBed s
      \<or> childrenWithoutBed (step tour s e) \<noteq> childrenWithoutBed s
    \<longrightarrow> selectedRoomConfig (step tour s e) = None)
   \<and> adults (step tour s (SelectDate d)) = adults s
   \<and> childrenWithBed (step tour s (SelectDate d)) = childrenWithBed s
   \<and> childrenWithoutBed (step tour s (SelectDate d)) = childrenWithoutBed s
   \<and> (selectedDate s \<noteq> '''' \<longrightarrow>
        selectedRoomConfig (step tour s (SelectDate d)) = selectedRoomConfig s)
   \<and> (reachable tour s \<longrightarrow>
        (\<forall>c. selectedRoomConfig s = Some c \<longrightarrow>
           single c + 2 * double c + 2 * twin c = adults s + childrenWithBed s))"
proof (intro conjI impI allI)
  assume "adults (step tour s e) \<noteq> adults s
      \<or> childrenWithBed (step tour s e) \<noteq> childrenWithBed s
      \<or> childrenWithoutBed (step tour s e) \<noteq> childrenWithoutBed s"
  then have "selectedRoomConfig (handler tour e s) = None"
    unfolding step_def effect_fields by (rule handler_counts_changed)
  then show "selectedRoomConfig (step tour s e) = None"
    unfolding step_def by (rule effect_fields)
next
  fix c assume "reachable tour s" and "selectedRoomConfig s = Some c"
  then show "single c + 2 * double c + 2 * twin c = adults s + childrenWithBed s"
    by (rule reachable_beds)
qed (simp_all add: step_SelectDate)

theorem passenger_change_resets_room_witness:
  "selectedRoomConfig roomChosen \<noteq> None
   \<and> adults (step tierTour roomChosen AdultsPlus) \<noteq> adults roomChosen
   \<and> selectedRoomConfig (step tierTour roomChosen AdultsPlus) = None"
  using passenger_change_resets_room [of tierTour roomChosen AdultsPlus] roomChosen_then_adult
  by blast

text \<open>
  The claim C10 as stated fails for the date: after a date and a room configuration have been
  selected, selecting another date leaves that configuration selected.
\<close>

theorem new_date_keeps_room:
  "selectedDate roomChosen = ''2025-12-01''
   \<and> selectedRoomConfig roomChosen =
       Some \<lparr>id_cfg = ''config-0'', single = 0, double = 0, twin = 1, priceDifference = 500\<rparr>
   \<and> selectedDate (step tierTour roomChosen (SelectDate ''2025-12-15'')) = ''2025-12-15''
   \<and> selectedRoomConfig (step tierTour roomChosen (SelectDate ''2025-12-15'')) =
       Some \<lparr>id_cfg = ''config-0'', single = 0, double = 0, twin = 1, priceDifference = 500\<rparr>"
  by code_simp

end
